theory Spec2Isabelle
  imports Complex_Main "HOL-Library.Word"
begin

section \<open>Data model of \<open>src/math/ndarray_manager.ts\<close>\<close>

text \<open>
  \<open>keyof DataTypes\<close>: the three element types \<open>'float32'\<close>, \<open>'int32'\<close> and \<open>'bool'\<close>.
\<close>

datatype DataType = Float32 | Int32 | Bool

text \<open>
  The values an element of a \<open>Float32Array\<close> can hold. A finite value is given by the
  rational number it denotes; the conversion below only ever produces \<open>NaN\<close>, an
  infinity or \<open>Finite\<close> of an integer.
\<close>

datatype float32 = NaN | PosInfinity | NegInfinity | NegZero | Finite rat

text \<open>
  \<open>TypedArray\<close> is the union of the three buffer types that \<open>DataTypes\<close> names:
  \<open>Float32Array\<close>, \<open>Int32Array\<close> (elements are 32-bit words read as signed integers)
  and \<open>Uint8Array\<close> (elements are bytes read as unsigned integers).
\<close>

datatype TypedArray =
    Float32Array "float32 list"
  | Int32Array "32 word list"
  | Uint8Array "8 word list"

text \<open>\<open>a.length\<close>.\<close>

fun length_of :: "TypedArray \<Rightarrow> nat" where
  "length_of (Float32Array xs) = length xs"
| "length_of (Int32Array ws) = length ws"
| "length_of (Uint8Array bs) = length bs"

text \<open>
  \<open>interface NDArrayData\<close>: the descriptor \<open>{id, dtype, shape}\<close>, with \<open>id\<close> written
  \<open>id'\<close>. A shape is a \<open>number[]\<close>; its entries are modelled as integers so that a
  negative dimension can be written down.
\<close>

record NDArrayData =
  id' :: nat
  dtype :: DataType
  shape :: "int list"

section \<open>Storing a number in a \<open>Float32Array\<close>\<close>

text \<open>
  The assignment \<open>res[i] = val\<close> to an element of a \<open>Float32Array\<close> stores the 32-bit
  float nearest to the number \<open>val\<close>, ties going to the even significand. A 32-bit float
  has a significand of 24 bits. For an integer of magnitude \<open>m\<close>, \<open>excessBits m\<close> is the
  number of low bits that do not fit, and \<open>roundToBits m s\<close> rounds \<open>m\<close> to a multiple
  of \<open>2 ^ s\<close>. A result of magnitude \<open>2 ^ 128\<close> or more is stored as an infinity.
\<close>

fun excessBits :: "nat \<Rightarrow> nat" where
  "excessBits m = (if m < 2 ^ 24 then 0 else Suc (excessBits (m div 2)))"

declare excessBits.simps [simp del]

definition roundToBits :: "nat \<Rightarrow> nat \<Rightarrow> nat" where
  "roundToBits m s =
     (let q = m div 2 ^ s; r = m mod 2 ^ s
      in (if 2 ^ s < 2 * r \<or> (2 * r = 2 ^ s \<and> odd q) then q + 1 else q) * 2 ^ s)"

definition numberToFloat32 :: "int \<Rightarrow> float32" where
  "numberToFloat32 v =
     (let m = nat \<bar>v\<bar>; r = roundToBits m (excessBits m)
      in if 2 ^ 128 \<le> r then (if v < 0 then NegInfinity else PosInfinity)
         else Finite (of_int (sgn v * int r)))"

section \<open>\<open>typedArrayToFloat32\<close>\<close>

text \<open>
  \<open>util.isValNaN\<close> is imported from a module outside this file; it is a parameter
  \<open>isValNaN\<close> of the model, applied to the number read from the array and the dtype.

  The \<open>for\<close> loop of the \<open>else\<close> branch: \<open>a\<close> holds the numbers \<open>a[0], a[1], ...\<close> read
  from the source array, \<open>res\<close> is the buffer being filled and \<open>i\<close> the loop counter.
\<close>

function fillFloat32 ::
  "(int \<Rightarrow> DataType \<Rightarrow> bool) \<Rightarrow> int list \<Rightarrow> DataType \<Rightarrow> nat \<Rightarrow> float32 list \<Rightarrow> float32 list"
where
  "fillFloat32 isValNaN a dt i res =
     (if i < length res
      then fillFloat32 isValNaN a dt (Suc i)
             (res[i := (if isValNaN (a ! i) dt then NaN else numberToFloat32 (a ! i))])
      else res)"
  by pat_completeness auto
termination
  by (relation "measure (\<lambda>(isValNaN, a, dt, i, res). length res - i)") auto

declare fillFloat32.simps [simp del]

text \<open>
  \<open>new Float32Array(a.length)\<close> is a buffer of \<open>a.length\<close> zeros, so every read
  \<open>a[i]\<close> of the loop is in range. An \<open>Int32Array\<close> element is read as a signed
  integer, a \<open>Uint8Array\<close> element as an unsigned one.
\<close>

fun typedArrayToFloat32 ::
  "(int \<Rightarrow> DataType \<Rightarrow> bool) \<Rightarrow> TypedArray \<Rightarrow> DataType \<Rightarrow> float32 list"
where
  "typedArrayToFloat32 isValNaN (Float32Array xs) dt = xs"
| "typedArrayToFloat32 isValNaN (Int32Array ws) dt =
     fillFloat32 isValNaN (map sint ws) dt 0 (replicate (length ws) (Finite 0))"
| "typedArrayToFloat32 isValNaN (Uint8Array bs) dt =
     fillFloat32 isValNaN (map uint bs) dt 0 (replicate (length bs) (Finite 0))"

section \<open>Errors and external capabilities\<close>

text \<open>
  A thrown value: \<open>new Error(message)\<close>, or the \<open>TypeError\<close> raised when a property of
  \<open>null\<close> or \<open>undefined\<close> is read or written. A call that may throw returns
  \<open>Inl\<close> of the thrown value or \<open>Inr\<close> of its result, together with the state it leaves.
\<close>

datatype error = Error string | TypeError

text \<open>\<open>TextureType\<close> is imported from \<open>tex_util\<close>; this file names only its member \<open>DEFAULT\<close>.\<close>

datatype TextureType = DEFAULT

text \<open>
  \<open>interface WebGLData\<close>: three optional fields, with \<open>type\<close> written \<open>textype\<close>; an
  absent field is \<open>None\<close>. \<open>'tex\<close> is the type of \<open>WebGLTexture\<close> handles.
\<close>

record 'tex WebGLData =
  texture :: "'tex option"
  texShape :: "(int \<times> int) option"
  textype :: "TextureType option"

text \<open>
  The functions this file calls but does not define, as parameters of the model:
  \<open>webgl_util.getTextureShapeFromLogicalShape\<close> (applied to \<open>GPGPU.gl\<close>, which is read
  off the context \<open>'g\<close>), \<open>TextureManager.acquireTexture\<close>,
  \<open>GPGPUContext.uploadMatrixToTexture\<close> and \<open>util.isValNaN\<close>. The two methods may change
  the object they are called on and each of the first three may throw.
\<close>

record ('g, 'tm, 'tex) externals =
  getTextureShapeFromLogicalShape :: "'g \<Rightarrow> int list \<Rightarrow> error + (int \<times> int)"
  acquireTexture :: "'tm \<Rightarrow> int \<times> int \<Rightarrow> 'tm \<times> (error + 'tex)"
  uploadMatrixToTexture ::
    "'g \<Rightarrow> 'tex option \<Rightarrow> int \<Rightarrow> int \<Rightarrow> float32 list \<Rightarrow> 'g \<times> (error + unit)"
  isValNaN :: "int \<Rightarrow> DataType \<Rightarrow> bool"

section \<open>\<open>class WebGLStorage\<close>\<close>

text \<open>
  The state the class works on: the module variables \<open>GPGPU\<close> and \<open>TEXTURE_MANAGER\<close>
  (\<open>None\<close> is \<open>null\<close>) and the field \<open>db\<close> of the instance. The class has no
  constructor and \<open>db\<close> has no initialiser, so \<open>db\<close> of a new instance is \<open>undefined\<close>
  (\<open>None\<close>).
\<close>

record ('g, 'tm, 'tex) WebGLState =
  GPGPU :: "'g option"
  TEXTURE_MANAGER :: "'tm option"
  db :: "(nat \<rightharpoonup> 'tex WebGLData) option"

definition newWebGLState :: "('g, 'tm, 'tex) WebGLState" where
  "newWebGLState = \<lparr>GPGPU = None, TEXTURE_MANAGER = None, db = None\<rparr>"

definition initializeGPU ::
  "'g \<Rightarrow> 'tm \<Rightarrow> ('g, 'tm, 'tex) WebGLState \<Rightarrow> ('g, 'tm, 'tex) WebGLState"
where
  "initializeGPU gpgpu textureManager w =
     w\<lparr>GPGPU := Some gpgpu, TEXTURE_MANAGER := Some textureManager\<rparr>"

definition throwIfDisposed ::
  "('g, 'tm, 'tex) WebGLState \<Rightarrow> ('g, 'tm, 'tex) WebGLState \<times> (error + unit)"
where
  "throwIfDisposed w = (w, Inl (Error ''Method not implemented.''))"

definition WebGLStorage_allocate ::
  "('g, 'tm, 'tex) externals \<Rightarrow> ('g, 'tm, 'tex) WebGLState \<Rightarrow> nat \<Rightarrow> int list \<Rightarrow> DataType
     \<Rightarrow> ('g, 'tm, 'tex) WebGLState \<times> (error + 'tex WebGLData)"
where
  "WebGLStorage_allocate ext w ident shp dt =
     (case throwIfDisposed w of
        (w1, Inl e) \<Rightarrow> (w1, Inl e)
      | (w1, Inr _) \<Rightarrow>
          (case GPGPU w1 of
             None \<Rightarrow> (w1, Inl TypeError)
           | Some g \<Rightarrow>
               (case getTextureShapeFromLogicalShape ext g shp of
                  Inl e \<Rightarrow> (w1, Inl e)
                | Inr tshape \<Rightarrow>
                    (case TEXTURE_MANAGER w1 of
                       None \<Rightarrow> (w1, Inl TypeError)
                     | Some tm \<Rightarrow>
                         (case acquireTexture ext tm tshape of
                            (tm', Inl e) \<Rightarrow> (w1\<lparr>TEXTURE_MANAGER := Some tm'\<rparr>, Inl e)
                          | (tm', Inr tex) \<Rightarrow>
                              (let w2 = w1\<lparr>TEXTURE_MANAGER := Some tm'\<rparr>;
                                   webGLData = \<lparr>texture = Some tex, texShape = Some tshape,
                                                textype = Some DEFAULT\<rparr>
                               in case db w2 of
                                    None \<Rightarrow> (w2, Inl TypeError)
                                  | Some d \<Rightarrow>
                                      (w2\<lparr>db := Some (d(ident \<mapsto> webGLData))\<rparr>,
                                       Inr webGLData)))))))"

text \<open>
  \<open>upload\<close> destructures the record that \<open>allocate\<close> returned. Reading the method off a
  \<open>null\<close> context throws, and so does reading \<open>texShape[0]\<close> of an absent \<open>texShape\<close>;
  the \<open>texture\<close> field is passed on as it is.
\<close>

definition WebGLStorage_upload ::
  "('g, 'tm, 'tex) externals \<Rightarrow> ('g, 'tm, 'tex) WebGLState \<Rightarrow> nat \<Rightarrow> int list \<Rightarrow> DataType
     \<Rightarrow> TypedArray \<Rightarrow> ('g, 'tm, 'tex) WebGLState \<times> (error + 'tex WebGLData)"
where
  "WebGLStorage_upload ext w ident shp dt vals =
     (case WebGLStorage_allocate ext w ident shp dt of
        (w1, Inl e) \<Rightarrow> (w1, Inl e)
      | (w1, Inr webGLData) \<Rightarrow>
          (case GPGPU w1 of
             None \<Rightarrow> (w1, Inl TypeError)
           | Some g \<Rightarrow>
               (case texShape webGLData of
                  None \<Rightarrow> (w1, Inl TypeError)
                | Some (rows, cols) \<Rightarrow>
                    (case uploadMatrixToTexture ext g (texture webGLData) rows cols
                            (typedArrayToFloat32 (isValNaN ext) vals dt) of
                       (g', Inl e) \<Rightarrow> (w1\<lparr>GPGPU := Some g'\<rparr>, Inl e)
                     | (g', Inr _) \<Rightarrow> (w1\<lparr>GPGPU := Some g'\<rparr>, Inr webGLData)))))"

definition WebGLStorage_download ::
  "('g, 'tm, 'tex) WebGLState \<Rightarrow> nat \<Rightarrow> ('g, 'tm, 'tex) WebGLState \<times> (error + TypedArray)"
where
  "WebGLStorage_download w ident =
     (case throwIfDisposed w of
        (w1, Inl e) \<Rightarrow> (w1, Inl e)
      | (w1, Inr _) \<Rightarrow> (w1, Inl (Error ''Method not implemented.'')))"

definition WebGLStorage_dispose ::
  "('g, 'tm, 'tex) WebGLState \<Rightarrow> nat \<Rightarrow> ('g, 'tm, 'tex) WebGLState \<times> (error + unit)"
where
  "WebGLStorage_dispose w ident =
     (case throwIfDisposed w of
        (w1, Inl e) \<Rightarrow> (w1, Inl e)
      | (w1, Inr _) \<Rightarrow> (w1, Inl (Error ''Method not implemented.'')))"

section \<open>\<open>interface NDArrayDataStorage\<close> and \<open>class NDArrayManager\<close>\<close>

text \<open>
  The four methods of a storage object, over the state \<open>'st\<close> the object keeps. \<open>'sd\<close> is
  its \<open>StorageData\<close> and \<open>'e\<close> the type of the values it throws. A method returns the state
  it leaves behind, also when it throws.
\<close>

record ('st, 'sd, 'e) NDArrayDataStorage =
  allocate :: "'st \<Rightarrow> nat \<Rightarrow> int list \<Rightarrow> DataType \<Rightarrow> 'st \<times> ('e + 'sd)"
  upload :: "'st \<Rightarrow> nat \<Rightarrow> int list \<Rightarrow> DataType \<Rightarrow> TypedArray \<Rightarrow> 'st \<times> ('e + 'sd)"
  download :: "'st \<Rightarrow> nat \<Rightarrow> 'st \<times> ('e + TypedArray)"
  dispose :: "'st \<Rightarrow> nat \<Rightarrow> 'st \<times> ('e + unit)"

text \<open>\<open>WebGLStorage implements NDArrayDataStorage\<close>.\<close>

definition WebGLStorage ::
  "('g, 'tm, 'tex) externals
     \<Rightarrow> (('g, 'tm, 'tex) WebGLState, 'tex WebGLData, error) NDArrayDataStorage"
where
  "WebGLStorage ext =
     \<lparr>allocate = WebGLStorage_allocate ext, upload = WebGLStorage_upload ext,
      download = WebGLStorage_download, dispose = WebGLStorage_dispose\<rparr>"

text \<open>
  \<open>nextId\<close> is a \<open>number\<close>, a 64-bit float with a significand of 53 bits, and
  \<open>nextId++\<close> stores the float nearest to \<open>nextId + 1\<close>, ties going to the even
  significand. \<open>toDouble m\<close> is that float for the natural number \<open>m\<close>: every \<open>m\<close>
  up to \<open>2 ^ 53\<close> is kept, and \<open>2 ^ 53 + 1\<close> becomes \<open>2 ^ 53\<close>. (Overflow to
  \<open>Infinity\<close>, at \<open>2 ^ 1024\<close>, is left out: the counter starts at 1 and never
  passes \<open>2 ^ 53\<close>.)
\<close>

fun excessBits53 :: "nat \<Rightarrow> nat" where
  "excessBits53 m = (if m < 2 ^ 53 then 0 else Suc (excessBits53 (m div 2)))"

declare excessBits53.simps [simp del]

definition toDouble :: "nat \<Rightarrow> nat" where
  "toDouble m = roundToBits m (excessBits53 m)"

text \<open>
  The state of a manager: the state of its storage object, the counter \<open>nextId\<close>, and the
  lines that \<open>track\<close> has written with \<open>console.log\<close>. The counter starts at 1 and
  only ever moves by \<open>nextId++\<close>.
\<close>

record 'st NDArrayManager =
  storage :: 'st
  nextId :: nat
  console :: "(string \<times> NDArrayData) list"

definition newNDArrayManager :: "'st \<Rightarrow> 'st NDArrayManager" where
  "newNDArrayManager st = \<lparr>storage = st, nextId = 1, console = []\<rparr>"

definition track :: "NDArrayData \<Rightarrow> 'st NDArrayManager \<Rightarrow> 'st NDArrayManager" where
  "track data m = m\<lparr>console := console m @ [(''tracked'', data)]\<rparr>"

text \<open>
  \<open>makeNDArrayData(shape, dtype, values?)\<close>; an omitted or \<open>null\<close> \<open>values\<close> is \<open>None\<close>.
  The increment of \<open>nextId\<close> happens before \<open>upload\<close> is called and stays when it throws.
\<close>

definition makeNDArrayData ::
  "('st, 'sd, 'e) NDArrayDataStorage \<Rightarrow> 'st NDArrayManager \<Rightarrow> int list \<Rightarrow> DataType
     \<Rightarrow> TypedArray option \<Rightarrow> 'st NDArrayManager \<times> ('e + NDArrayData)"
where
  "makeNDArrayData S m shp dt vals =
     (let ident = nextId m;
          m1 = m\<lparr>nextId := toDouble (nextId m + 1)\<rparr>;
          data = \<lparr>id' = ident, dtype = dt, shape = shp\<rparr>
      in case vals of
           None \<Rightarrow> (track data m1, Inr data)
         | Some v \<Rightarrow>
             (case upload S (storage m1) ident shp dt v of
                (st', Inl e) \<Rightarrow> (m1\<lparr>storage := st'\<rparr>, Inl e)
              | (st', Inr _) \<Rightarrow> (track data (m1\<lparr>storage := st'\<rparr>), Inr data)))"

section \<open>Sequences of calls\<close>

text \<open>
  What a client does with a manager and the storage object it was built on: it calls
  \<open>makeNDArrayData\<close> on the manager, or \<open>dispose\<close> on the storage object.
\<close>

datatype call = Make "int list" DataType "TypedArray option" | Dispose nat

datatype 'e outcome = Made NDArrayData | Disposed | Thrown 'e

fun step ::
  "('st, 'sd, 'e) NDArrayDataStorage \<Rightarrow> 'st NDArrayManager \<Rightarrow> call
     \<Rightarrow> 'st NDArrayManager \<times> 'e outcome"
where
  "step S m (Make shp dt vals) =
     (case makeNDArrayData S m shp dt vals of
        (m', Inl e) \<Rightarrow> (m', Thrown e)
      | (m', Inr d) \<Rightarrow> (m', Made d))"
| "step S m (Dispose ident) =
     (case dispose S (storage m) ident of
        (st', Inl e) \<Rightarrow> (m\<lparr>storage := st'\<rparr>, Thrown e)
      | (st', Inr _) \<Rightarrow> (m\<lparr>storage := st'\<rparr>, Disposed))"

fun run ::
  "('st, 'sd, 'e) NDArrayDataStorage \<Rightarrow> 'st NDArrayManager \<Rightarrow> call list
     \<Rightarrow> 'st NDArrayManager \<times> 'e outcome list"
where
  "run S m [] = (m, [])"
| "run S m (c # cs) =
     (case step S m c of
        (m', out) \<Rightarrow> (case run S m' cs of (m'', outs) \<Rightarrow> (m'', out # outs)))"

text \<open>The descriptors a sequence of calls returned, in order, and whether a call is a \<open>Make\<close>.\<close>

fun madeData :: "'e outcome list \<Rightarrow> NDArrayData list" where
  "madeData [] = []"
| "madeData (Made d # outs) = d # madeData outs"
| "madeData (_ # outs) = madeData outs"

fun isMake :: "call \<Rightarrow> bool" where
  "isMake (Make shp dt vals) = True"
| "isMake (Dispose ident) = False"

section \<open>A stand-in for the external capabilities\<close>

text \<open>
  To run the operations on concrete inputs the parameters need values. In this stand-in a
  context is the list of writes it has received, a texture manager is the number of
  textures it has handed out, a shape is laid out in one row, and the markers are
  \<open>- 2 ^ 31\<close> for \<open>int32\<close> and \<open>255\<close> for \<open>bool\<close>.
\<close>

type_synonym sampleContext = "(nat option \<times> int \<times> int \<times> float32 list) list"

definition sampleMarker :: "int \<Rightarrow> DataType \<Rightarrow> bool" where
  "sampleMarker v dt = ((dt = Int32 \<and> v = - (2 ^ 31)) \<or> (dt = Bool \<and> v = 255))"

definition sampleExternals :: "(sampleContext, nat, nat) externals" where
  "sampleExternals =
     \<lparr>getTextureShapeFromLogicalShape = (\<lambda>g shp. Inr (1, prod_list shp)),
      acquireTexture = (\<lambda>tm tshape. (Suc tm, Inr tm)),
      uploadMatrixToTexture = (\<lambda>g tex rows cols vals. (g @ [(tex, rows, cols, vals)], Inr ())),
      isValNaN = sampleMarker\<rparr>"

definition sampleState :: "(sampleContext, nat, nat) WebGLState" where
  "sampleState = initializeGPU [] 0 newWebGLState"

text \<open>
  A second storage object, to run the manager on an \<open>upload\<close> that returns: it keeps the
  uploaded arrays in a list and never throws on \<open>upload\<close>.
\<close>

definition recordingStorage :: "((nat \<times> TypedArray) list, unit, error) NDArrayDataStorage" where
  "recordingStorage =
     \<lparr>allocate = (\<lambda>st ident shp dt. (st, Inr ())),
      upload = (\<lambda>st ident shp dt vals. (st @ [(ident, vals)], Inr ())),
      download = (\<lambda>st ident.
        (st, case map_of st ident of None \<Rightarrow> Inl (Error ''unknown id'') | Some vals \<Rightarrow> Inr vals)),
      dispose = (\<lambda>st ident. (filter (\<lambda>p. fst p \<noteq> ident) st, Inr ()))\<rparr>"

text \<open>
  Six values for a \<open>[2, 3]\<close> array, and a sequence of calls: an array made without
  values, a \<open>dispose\<close> of it, an array made with values, an array made without values.
\<close>

definition sampleValues :: TypedArray where
  "sampleValues = Float32Array [Finite 1, Finite 2, Finite 3, Finite 4, Finite 5, Finite 6]"

definition sampleCalls :: "call list" where
  "sampleCalls =
     [Make [1] Bool None, Dispose 1, Make [2, 3] Float32 (Some sampleValues), Make [1] Bool None]"



section \<open>The conversion loop\<close>

lemma fillFloat32_length: "length (fillFloat32 f a dt i res) = length res"
  by (induction f a dt i res rule: fillFloat32.induct) (subst fillFloat32.simps, simp)

lemma fillFloat32_nth_done: "j < i \<Longrightarrow> fillFloat32 f a dt i res ! j = res ! j"
  by (induction f a dt i res rule: fillFloat32.induct) (subst fillFloat32.simps, simp)

lemma fillFloat32_nth:
  "i \<le> j \<Longrightarrow> j < length res \<Longrightarrow>
   fillFloat32 f a dt i res ! j = (if f (a ! j) dt then NaN else numberToFloat32 (a ! j))"
proof (induction f a dt i res rule: fillFloat32.induct)
  case (1 f a dt i res)
  let ?res' = "res[i := (if f (a ! i) dt then NaN else numberToFloat32 (a ! i))]"
  from "1.prems" have lt: "i < length res" by simp
  have unroll: "fillFloat32 f a dt i res = fillFloat32 f a dt (Suc i) ?res'"
    using lt by (subst fillFloat32.simps) simp
  show ?case
  proof (cases "i = j")
    case True
    have "fillFloat32 f a dt (Suc i) ?res' ! j = ?res' ! j"
      using True by (simp add: fillFloat32_nth_done)
    with True lt unroll show ?thesis by simp
  next
    case False
    with "1.prems" have "Suc i \<le> j" by simp
    with "1.IH" [OF lt] "1.prems" unroll show ?thesis by simp
  qed
qed

lemma fillFloat32_map:
  assumes "length res = length a"
  shows "fillFloat32 f a dt 0 res = map (\<lambda>v. if f v dt then NaN else numberToFloat32 v) a"
proof (rule nth_equalityI)
  show "length (fillFloat32 f a dt 0 res) = length (map (\<lambda>v. if f v dt then NaN else numberToFloat32 v) a)"
    using assms by (simp add: fillFloat32_length)
next
  fix j assume "j < length (fillFloat32 f a dt 0 res)"
  then have j: "j < length res" by (simp add: fillFloat32_length)
  with assms show "fillFloat32 f a dt 0 res ! j = map (\<lambda>v. if f v dt then NaN else numberToFloat32 v) a ! j"
    by (simp add: fillFloat32_nth)
qed

lemma excessBits_small: "m < 2 ^ 24 \<Longrightarrow> excessBits m = 0"
  by (subst excessBits.simps) simp

lemma excessBits_25: "2 ^ 24 \<le> m \<Longrightarrow> m < 2 ^ 25 \<Longrightarrow> excessBits m = 1"
  by (subst excessBits.simps) (simp add: excessBits_small)

lemma roundToBits_0: "roundToBits m 0 = m"
  by (simp add: roundToBits_def)

lemma roundToBits_small: 
  assumes "m \<le> 2 ^ 24" shows "roundToBits m (excessBits m) = m"
proof (cases "m < 2 ^ 24")
  case True
  then show ?thesis by (simp add: excessBits_small roundToBits_0)
next
  case False
  with assms have m: "m = 2 ^ 24" by simp
  have e: "excessBits (2 ^ 24) = 1" by (rule excessBits_25) simp_all
  have r: "roundToBits (2 ^ 24) 1 = 2 ^ 24" by (simp add: roundToBits_def)
  show ?thesis unfolding m e r ..
qed

lemma numberToFloat32_exact:
  assumes "\<bar>v\<bar> \<le> 2 ^ 24"
  shows "numberToFloat32 v = Finite (of_int v)"
proof -
  let ?m = "nat \<bar>v\<bar>"
  from assms have m: "?m \<le> 2 ^ 24" by simp
  then have r: "roundToBits ?m (excessBits ?m) = ?m" by (rule roundToBits_small)
  have "(2::nat) ^ 24 < 2 ^ 128" by simp
  with m have lt: "\<not> 2 ^ 128 \<le> ?m" by linarith
  have "sgn v * int ?m = v" by (simp add: mult_sgn_abs)
  then show ?thesis
    unfolding numberToFloat32_def Let_def r using lt by simp
qed

text \<open>
  The stored magnitude is a multiple of \<open>2 ^ excessBits m\<close> with a significand of at
  most \<open>2 ^ 24\<close>, and it lies within half of \<open>2 ^ excessBits m\<close> of \<open>m\<close>: it is a
  nearest 32-bit float.
\<close>

lemma roundToBits_cases:
  "roundToBits m s = (m div 2 ^ s) * 2 ^ s \<and> 2 * (m mod 2 ^ s) \<le> 2 ^ s \<or>
   roundToBits m s = (m div 2 ^ s + 1) * 2 ^ s \<and> 2 ^ s \<le> 2 * (m mod 2 ^ s)"
  by (auto simp: roundToBits_def Let_def)

lemma roundToBits_nearest:
  "2 * (roundToBits m s - m) \<le> 2 ^ s \<and> 2 * (m - roundToBits m s) \<le> 2 ^ s"
proof -
  define p :: nat where "p = 2 ^ s"
  define q where "q = m div p"
  define r where "r = m mod p"
  have m: "m = q * p + r" by (simp add: q_def r_def)
  from roundToBits_cases [of m s]
  consider "roundToBits m s = q * p" "2 * r \<le> p" | "roundToBits m s = (q + 1) * p" "p \<le> 2 * r"
    unfolding p_def q_def r_def by blast
  then show ?thesis
  proof cases
    case 1
    then show ?thesis unfolding p_def [symmetric] m by simp
  next
    case 2
    have "r < p" unfolding r_def p_def by simp
    with 2 show ?thesis unfolding p_def [symmetric] m by simp
  qed
qed

lemma excessBits_bound: "m < 2 ^ 24 * 2 ^ excessBits m"
proof (induction m rule: excessBits.induct)
  case (1 m)
  show ?case
  proof (cases "m < 2 ^ 24")
    case True
    then show ?thesis by (subst excessBits.simps) simp
  next
    case False
    then have e: "excessBits m = Suc (excessBits (m div 2))" by (subst excessBits.simps) simp
    from "1.IH" [OF False] have "m div 2 < 2 ^ 24 * 2 ^ excessBits (m div 2)" .
    then have "m < 2 * (2 ^ 24 * 2 ^ excessBits (m div 2))" by linarith
    then show ?thesis unfolding e by (simp only: power_Suc mult.left_commute)
  qed
qed

lemma roundToBits_significand:
  "\<exists>q. q \<le> 2 ^ 24 \<and> roundToBits m (excessBits m) = q * 2 ^ excessBits m"
proof -
  let ?s = "excessBits m"
  have "m < 2 ^ 24 * 2 ^ ?s" by (rule excessBits_bound)
  then have q: "m div 2 ^ ?s < 2 ^ 24" by (simp add: less_mult_imp_div_less)
  from roundToBits_cases [of m ?s] show ?thesis
  proof
    assume "roundToBits m ?s = m div 2 ^ ?s * 2 ^ ?s \<and> 2 * (m mod 2 ^ ?s) \<le> 2 ^ ?s"
    with q show ?thesis by (intro exI [of _ "m div 2 ^ ?s"]) simp
  next
    assume "roundToBits m ?s = (m div 2 ^ ?s + 1) * 2 ^ ?s \<and> 2 ^ ?s \<le> 2 * (m mod 2 ^ ?s)"
    with q show ?thesis by (intro exI [of _ "m div 2 ^ ?s + 1"]) simp
  qed
qed

text \<open>
  What is stored, without the two functions above. For a number of magnitude \<open>m\<close> the
  floats around it are the multiples of \<open>2 ^ s\<close>, where \<open>s = 0\<close> when \<open>m < 2 ^ 24\<close> and
  \<open>2 ^ 23 * 2 ^ s \<le> m < 2 ^ 24 * 2 ^ s\<close> otherwise. The stored magnitude is such a
  multiple \<open>q * 2 ^ s\<close> with \<open>q \<le> 2 ^ 24\<close>, at most half of \<open>2 ^ s\<close> away from \<open>m\<close>,
  and with \<open>q\<close> even when it is exactly half of \<open>2 ^ s\<close> away.
\<close>

lemma excessBits_lower: "excessBits m = 0 \<or> 2 ^ 23 * 2 ^ excessBits m \<le> m"
proof (induction m rule: excessBits.induct)
  case (1 m)
  show ?case
  proof (cases "m < 2 ^ 24")
    case True
    then show ?thesis by (simp add: excessBits_small)
  next
    case False
    then have e: "excessBits m = Suc (excessBits (m div 2))" by (subst excessBits.simps) simp
    from "1.IH" [OF False]
    have "2 ^ 23 * 2 ^ excessBits (m div 2) \<le> m div 2"
    proof
      assume z: "excessBits (m div 2) = 0"
      from False have "2 ^ 23 \<le> m div 2" by simp
      with z show ?thesis by simp
    next
      assume "2 ^ 23 * 2 ^ excessBits (m div 2) \<le> m div 2"
      then show ?thesis .
    qed
    then have "2 * (2 ^ 23 * 2 ^ excessBits (m div 2)) \<le> m" by linarith
    then have "2 ^ 23 * 2 ^ Suc (excessBits (m div 2)) \<le> m"
      by (simp only: power_Suc mult.left_commute)
    then show ?thesis unfolding e by (rule disjI2)
  qed
qed

lemma roundToBits_tie_even:
  "\<exists>q. roundToBits m s = q * 2 ^ s \<and>
       2 * (q * 2 ^ s - m) \<le> 2 ^ s \<and> 2 * (m - q * 2 ^ s) \<le> 2 ^ s \<and>
       (2 * (q * 2 ^ s - m) = 2 ^ s \<or> 2 * (m - q * 2 ^ s) = 2 ^ s \<longrightarrow> even q)"
proof -
  define p :: nat where "p = 2 ^ s"
  define q0 where "q0 = m div p"
  define r where "r = m mod p"
  have m: "m = q0 * p + r" by (simp add: q0_def r_def)
  have rp: "r < p" unfolding r_def p_def by simp
  show ?thesis
  proof (cases "p < 2 * r \<or> (2 * r = p \<and> odd q0)")
    case True
    then have up: "roundToBits m s = (q0 + 1) * p"
      by (simp add: roundToBits_def Let_def p_def q0_def r_def)
    have a: "2 * ((q0 + 1) * p - m) \<le> p" using True rp unfolding m by auto
    have b: "2 * (m - (q0 + 1) * p) \<le> p" using rp unfolding m by simp
    have c: "even (q0 + 1)"
      if "2 * ((q0 + 1) * p - m) = p \<or> 2 * (m - (q0 + 1) * p) = p"
    proof -
      have "m - (q0 + 1) * p = 0" using rp unfolding m by simp
      moreover have "0 < p" unfolding p_def by simp
      ultimately have "2 * ((q0 + 1) * p - m) = p" using that by auto
      moreover have "(q0 + 1) * p - m = p - r" unfolding m by simp
      ultimately have "2 * r = p" using rp by linarith
      with True have "odd q0" by auto
      then show ?thesis by simp
    qed
    from up a b c show ?thesis unfolding p_def [symmetric] by blast
  next
    case False
    then have down: "roundToBits m s = q0 * p"
      by (simp add: roundToBits_def Let_def p_def q0_def r_def)
    have a: "2 * (q0 * p - m) \<le> p" unfolding m by simp
    have b: "2 * (m - q0 * p) \<le> p" using False unfolding m by auto
    have c: "even q0" if "2 * (q0 * p - m) = p \<or> 2 * (m - q0 * p) = p"
    proof -
      have "q0 * p - m = 0" unfolding m by simp
      moreover have "0 < p" unfolding p_def by simp
      ultimately have "2 * (m - q0 * p) = p" using that by auto
      then have "2 * r = p" unfolding m by simp
      with False show ?thesis by auto
    qed
    from down a b c show ?thesis unfolding p_def [symmetric] by blast
  qed
qed

lemma numberToFloat32_nearest:
  assumes "\<bar>v\<bar> \<le> 2 ^ 31"
  shows "\<exists>q s. numberToFloat32 v = Finite (of_int (sgn v * int (q * 2 ^ s))) \<and>
           q \<le> 2 ^ 24 \<and>
           nat \<bar>v\<bar> < 2 ^ 24 * 2 ^ s \<and> (s = 0 \<or> 2 ^ 23 * 2 ^ s \<le> nat \<bar>v\<bar>) \<and>
           2 * \<bar>int (q * 2 ^ s) - \<bar>v\<bar>\<bar> \<le> 2 ^ s \<and>
           (2 * \<bar>int (q * 2 ^ s) - \<bar>v\<bar>\<bar> = 2 ^ s \<longrightarrow> even q)"
proof -
  define m where "m = nat \<bar>v\<bar>"
  define s where "s = excessBits m"
  have mv: "int m = \<bar>v\<bar>" by (simp add: m_def)
  have m31: "m \<le> 2 ^ 31" using assms by (simp add: m_def)
  have hi: "m < 2 ^ 24 * 2 ^ s" unfolding s_def by (rule excessBits_bound)
  have lo: "s = 0 \<or> 2 ^ 23 * 2 ^ s \<le> m" unfolding s_def by (rule excessBits_lower)
  from roundToBits_tie_even [of m s] obtain q where
    r: "roundToBits m s = q * 2 ^ s"
    and up: "2 * (q * 2 ^ s - m) \<le> 2 ^ s" and down: "2 * (m - q * 2 ^ s) \<le> 2 ^ s"
    and tie: "2 * (q * 2 ^ s - m) = 2 ^ s \<or> 2 * (m - q * 2 ^ s) = 2 ^ s \<longrightarrow> even q"
    by blast
  define x where "x = q * 2 ^ s"
  define p :: nat where "p = 2 ^ s"
  have p0: "0 < p" unfolding p_def by simp
  note up' = up [folded x_def p_def] and down' = down [folded x_def p_def]
    and tie' = tie [folded x_def p_def] and hi' = hi [folded p_def] and lo' = lo [folded p_def]
  have ab: "\<bar>int x - int m\<bar> = int (x - m) + int (m - x)" by linarith
  have up_i: "2 * int (x - m) \<le> int p" using of_nat_mono [OF up', where 'a = int] by simp
  have down_i: "2 * int (m - x) \<le> int p" using of_nat_mono [OF down', where 'a = int] by simp
  have dist: "2 * \<bar>int x - int m\<bar> \<le> int p"
  proof (cases "m \<le> x")
    case True
    then have "\<bar>int x - int m\<bar> = int (x - m)" unfolding ab by simp
    with up_i show ?thesis by simp
  next
    case False
    then have "\<bar>int x - int m\<bar> = int (m - x)" unfolding ab by simp
    with down_i show ?thesis by simp
  qed
  have even: "even q" if t: "2 * \<bar>int x - int m\<bar> = int p"
  proof (cases "m \<le> x")
    case True
    then have "\<bar>int x - int m\<bar> = int (x - m)" unfolding ab by simp
    with t have "int (2 * (x - m)) = int p" by simp
    then have "2 * (x - m) = p" by (simp only: of_nat_eq_iff)
    with tie' show ?thesis by blast
  next
    case False
    then have "\<bar>int x - int m\<bar> = int (m - x)" unfolding ab by simp
    with t have "int (2 * (m - x)) = int p" by simp
    then have "2 * (m - x) = p" by (simp only: of_nat_eq_iff)
    with tie' show ?thesis by blast
  qed
  have "q * p \<le> m + p" using up' unfolding x_def p_def [symmetric] by linarith
  also have "\<dots> < 2 ^ 24 * p + p" using hi' by simp
  also have "\<dots> = (2 ^ 24 + 1) * p" by (simp add: algebra_simps)
  finally have "q < 2 ^ 24 + 1" using p0 by simp
  then have q24: "q \<le> 2 ^ 24" by simp
  have p8: "p \<le> 2 ^ 8"
  proof (cases "s = 0")
    case True
    then show ?thesis by (simp add: p_def)
  next
    case False
    with lo' have "2 ^ 23 * p \<le> m" by simp
    with m31 have "2 ^ 23 * p \<le> (2::nat) ^ 23 * 2 ^ 8" by simp
    then show ?thesis by simp
  qed
  have "x = q * p" by (simp add: x_def p_def)
  also have "\<dots> \<le> 2 ^ 24 * 2 ^ 8" using q24 p8 by (rule mult_le_mono)
  also have "\<dots> < (2::nat) ^ 128" by simp
  finally have fin: "\<not> 2 ^ 128 \<le> x" by simp
  have val: "numberToFloat32 v = Finite (of_int (sgn v * int x))"
    using fin unfolding numberToFloat32_def Let_def m_def [symmetric] s_def [symmetric] r x_def
    by simp
  from val q24 hi lo dist even show ?thesis
    unfolding x_def p_def mv m_def by (intro exI [of _ q] exI [of _ s]) simp
qed

lemma sint32_range:
  fixes u :: "32 word"
  shows "\<bar>sint u\<bar> \<le> 2 ^ 31"
  using sint_ge [where x = u] sint_lt [where x = u] by simp

lemma typedArrayToFloat32_Int32Array:
  "typedArrayToFloat32 f (Int32Array ws) dt =
     map (\<lambda>w. if f (sint w) dt then NaN else numberToFloat32 (sint w)) ws"
  by (simp add: fillFloat32_map comp_def)

lemma typedArrayToFloat32_Uint8Array:
  "typedArrayToFloat32 f (Uint8Array bs) dt =
     map (\<lambda>b. if f (uint b) dt then NaN else Finite (of_int (uint b))) bs"
proof -
  have "numberToFloat32 (uint b) = Finite (of_int (uint b))" for b :: "8 word"
  proof (rule numberToFloat32_exact)
    have "uint b < 2 ^ 8" using uint_bounded [of b] by simp
    then show "\<bar>uint b\<bar> \<le> 2 ^ 24" by simp
  qed
  then show ?thesis by (simp add: fillFloat32_map comp_def)
qed

lemma typedArrayToFloat32_length: "length (typedArrayToFloat32 f a dt) = length_of a"
  by (cases a) (simp_all add: fillFloat32_length)

lemma numberToFloat32_16777217: "numberToFloat32 16777217 = Finite 16777216"
  by (simp add: numberToFloat32_def excessBits_25 roundToBits_def)

section \<open>C3: what \<open>typedArrayToFloat32\<close> returns\<close>

text \<open>
  Claim C3, as amended. A \<open>Float32Array\<close> is returned as it is. For an \<open>Int32Array\<close> or a
  \<open>Uint8Array\<close> the result has the length of the input, an element that \<open>isValNaN\<close>
  accepts for the dtype becomes \<open>NaN\<close>, and every other element is stored as the 32-bit
  float nearest to it, ties going to the even significand. That float is the element
  itself whenever its magnitude is at most \<open>2 ^ 24\<close>, hence for every element of a
  \<open>Uint8Array\<close>. For an element \<open>sint u\<close> of an \<open>Int32Array\<close> it is the multiple
  \<open>q * 2 ^ s\<close> of the spacing \<open>2 ^ s\<close> of the floats at the element's magnitude that lies
  at most half a spacing away, with \<open>q\<close> even when two multiples are equally near.
\<close>

theorem typedArrayToFloat32_normalizes:
  "typedArrayToFloat32 f (Float32Array xs) dt = xs \<and>
   length (typedArrayToFloat32 f a dt) = length_of a \<and>
   typedArrayToFloat32 f (Int32Array ws) dt =
     map (\<lambda>w. if f (sint w) dt then NaN else numberToFloat32 (sint w)) ws \<and>
   typedArrayToFloat32 f (Uint8Array bs) dt =
     map (\<lambda>b. if f (uint b) dt then NaN else Finite (of_int (uint b))) bs \<and>
   (\<bar>v\<bar> \<le> 2 ^ 24 \<longrightarrow> numberToFloat32 v = Finite (of_int v)) \<and>
   (\<exists>q s. numberToFloat32 (sint (u :: 32 word))
             = Finite (of_int (sgn (sint u) * int (q * 2 ^ s))) \<and>
      q \<le> 2 ^ 24 \<and>
      nat \<bar>sint u\<bar> < 2 ^ 24 * 2 ^ s \<and> (s = 0 \<or> 2 ^ 23 * 2 ^ s \<le> nat \<bar>sint u\<bar>) \<and>
      2 * \<bar>int (q * 2 ^ s) - \<bar>sint u\<bar>\<bar> \<le> 2 ^ s \<and>
      (2 * \<bar>int (q * 2 ^ s) - \<bar>sint u\<bar>\<bar> = 2 ^ s \<longrightarrow> even q))"
proof -
  have "typedArrayToFloat32 f (Float32Array xs) dt = xs" by simp
  moreover have "length (typedArrayToFloat32 f a dt) = length_of a"
    by (rule typedArrayToFloat32_length)
  moreover note typedArrayToFloat32_Int32Array [of f ws dt]
    typedArrayToFloat32_Uint8Array [of f bs dt]
  moreover have "\<bar>v\<bar> \<le> 2 ^ 24 \<longrightarrow> numberToFloat32 v = Finite (of_int v)"
    by (simp add: numberToFloat32_exact)
  moreover note numberToFloat32_nearest [OF sint32_range [of u]]
  ultimately show ?thesis by (intro conjI)
qed

text \<open>
  The theorem at a \<open>Float32Array\<close>, at an \<open>Int32Array\<close> that holds the \<open>int32\<close> marker,
  at a \<open>Uint8Array\<close> that holds the \<open>bool\<close> marker, and at the element \<open>16777219\<close>,
  which lies halfway between two floats and is stored as \<open>16777220\<close>.
\<close>

theorem typedArrayToFloat32_normalizes_witness:
  "\<bar>5 :: int\<bar> \<le> 2 ^ 24 \<and>
   typedArrayToFloat32 sampleMarker (Float32Array [Finite (1 / 2), NaN]) Float32
     = [Finite (1 / 2), NaN] \<and>
   typedArrayToFloat32 sampleMarker (Int32Array [5, - 2147483648, 5]) Int32
     = [Finite 5, NaN, Finite 5] \<and>
   typedArrayToFloat32 sampleMarker (Uint8Array [1, 255, 0]) Bool
     = [Finite 1, NaN, Finite 0] \<and>
   (\<exists>q s. numberToFloat32 16777219 = Finite (of_int (int (q * 2 ^ s))) \<and>
      q \<le> 2 ^ 24 \<and> (16777219 :: nat) < 2 ^ 24 * 2 ^ s \<and> (s = 0 \<or> 2 ^ 23 * 2 ^ s \<le> (16777219 :: nat)) \<and>
      2 * \<bar>int (q * 2 ^ s) - 16777219\<bar> \<le> 2 ^ s \<and>
      (2 * \<bar>int (q * 2 ^ s) - 16777219\<bar> = 2 ^ s \<longrightarrow> even q)) \<and>
   numberToFloat32 16777219 = Finite 16777220"
proof -
  have small: "\<bar>5 :: int\<bar> \<le> 2 ^ 24" by simp
  note i32 = typedArrayToFloat32_normalizes
    [of sampleMarker "[Finite (1 / 2), NaN]" Int32 "Int32Array [5, - 2147483648, 5]"
        "[5, - 2147483648, 5]" "[1, 255, 0]" 5 16777219]
  note u8 = typedArrayToFloat32_normalizes
    [of sampleMarker "[Finite (1 / 2), NaN]" Bool "Uint8Array [1, 255, 0]"
        "[5, - 2147483648, 5]" "[1, 255, 0]" 5 16777219]
  note f32 = typedArrayToFloat32_normalizes
    [of sampleMarker "[Finite (1 / 2), NaN]" Float32 "Float32Array [Finite (1 / 2), NaN]"
        "[5, - 2147483648, 5]" "[1, 255, 0]" 5 16777219]
  from i32 [THEN conjunct2, THEN conjunct2, THEN conjunct2, THEN conjunct2, THEN conjunct1] small
  have five: "numberToFloat32 5 = Finite 5" by simp
  have a: "typedArrayToFloat32 sampleMarker (Int32Array [5, - 2147483648, 5]) Int32
     = [Finite 5, NaN, Finite 5]"
    unfolding i32 [THEN conjunct2, THEN conjunct2, THEN conjunct1]
    by (simp add: five sampleMarker_def)
  have b: "typedArrayToFloat32 sampleMarker (Uint8Array [1, 255, 0]) Bool
     = [Finite 1, NaN, Finite 0]"
    unfolding u8 [THEN conjunct2, THEN conjunct2, THEN conjunct2, THEN conjunct1]
    by (simp add: sampleMarker_def)
  note c = f32 [THEN conjunct1]
  have s: "sint (16777219 :: 32 word) = 16777219" by simp
  have d: "\<exists>q s. numberToFloat32 16777219 = Finite (of_int (int (q * 2 ^ s))) \<and>
      q \<le> 2 ^ 24 \<and> (16777219 :: nat) < 2 ^ 24 * 2 ^ s \<and>
      (s = 0 \<or> 2 ^ 23 * 2 ^ s \<le> (16777219 :: nat)) \<and>
      2 * \<bar>int (q * 2 ^ s) - 16777219\<bar> \<le> 2 ^ s \<and>
      (2 * \<bar>int (q * 2 ^ s) - 16777219\<bar> = 2 ^ s \<longrightarrow> even q)"
    using i32 [THEN conjunct2, THEN conjunct2, THEN conjunct2, THEN conjunct2, THEN conjunct2,
      unfolded s]
    by simp
  have e: "numberToFloat32 16777219 = Finite 16777220"
    by (simp add: numberToFloat32_def excessBits_25 roundToBits_def)
  show ?thesis
    by (intro conjI) (rule small a b c d e)+
qed

text \<open>
  The claim as it was stated has every element that is no marker written verbatim. The
  \<open>Int32Array\<close> element \<open>16777217 = 2 ^ 24 + 1\<close> is no marker and is stored as
  \<open>16777216\<close>: a 32-bit float has no room for its lowest bit.
\<close>

theorem typedArrayToFloat32_counterexample:
  "\<not> sampleMarker (sint (16777217 :: 32 word)) Int32 \<and>
   typedArrayToFloat32 sampleMarker (Int32Array [16777217]) Int32 = [Finite 16777216] \<and>
   typedArrayToFloat32 sampleMarker (Int32Array [16777217]) Int32
     \<noteq> [Finite (of_int (sint (16777217 :: 32 word)))]"
  unfolding typedArrayToFloat32_Int32Array
  by (simp add: numberToFloat32_16777217 sampleMarker_def)

section \<open>The operations of \<open>WebGLStorage\<close>\<close>

text \<open>
  \<open>throwIfDisposed\<close> throws whatever the state, and each operation calls it before
  anything else.
\<close>

lemma allocate_throws:
  "WebGLStorage_allocate ext w ident shp dt = (w, Inl (Error ''Method not implemented.''))"
  by (simp add: WebGLStorage_allocate_def throwIfDisposed_def)

lemma upload_throws:
  "WebGLStorage_upload ext w ident shp dt vals = (w, Inl (Error ''Method not implemented.''))"
  by (simp add: WebGLStorage_upload_def allocate_throws)

lemma download_throws:
  "WebGLStorage_download w ident = (w, Inl (Error ''Method not implemented.''))"
  by (simp add: WebGLStorage_download_def throwIfDisposed_def)

lemma dispose_throws:
  "WebGLStorage_dispose w ident = (w, Inl (Error ''Method not implemented.''))"
  by (simp add: WebGLStorage_dispose_def throwIfDisposed_def)

text \<open>
  Claim C9. Every operation of \<open>WebGLStorage\<close> throws \<open>Error('Method not implemented.')\<close> for
  every input and in every state, initialised or not, and leaves the state as it was,
  because \<open>throwIfDisposed\<close> itself always throws. In particular \<open>makeNDArrayData\<close> with
  values, on a manager built on a \<open>WebGLStorage\<close>, never returns a descriptor.
\<close>

theorem WebGLStorage_always_throws:
  "throwIfDisposed w = (w, Inl (Error ''Method not implemented.'')) \<and>
   WebGLStorage_allocate ext w ident shp dt = (w, Inl (Error ''Method not implemented.'')) \<and>
   WebGLStorage_upload ext w ident shp dt vals = (w, Inl (Error ''Method not implemented.'')) \<and>
   WebGLStorage_download w ident = (w, Inl (Error ''Method not implemented.'')) \<and>
   WebGLStorage_dispose w ident = (w, Inl (Error ''Method not implemented.'')) \<and>
   snd (makeNDArrayData (WebGLStorage ext) m shp dt (Some vals))
     = Inl (Error ''Method not implemented.'')"
  by (simp add: allocate_throws upload_throws download_throws dispose_throws
      throwIfDisposed_def makeNDArrayData_def WebGLStorage_def Let_def)



text \<open>
  Claim C2 says that \<open>upload\<close> performs \<open>allocate\<close>, writes the 32-bit float form of
  the values into the acquired texture and returns the record of \<open>allocate\<close>. At
  \<open>upload(1, [2, 3], 'float32', [1, 2, 3, 4, 5, 6])\<close> after \<open>initializeGPU\<close>: the
  call throws, the context has received no write and no record is stored.
\<close>

theorem upload_at_sample:
  "WebGLStorage_upload sampleExternals sampleState 1 [2, 3] Float32 sampleValues
   = (sampleState, Inl (Error ''Method not implemented.'')) \<and>
   GPGPU sampleState = Some [] \<and> db sampleState = None"
  by (simp add: upload_throws sampleState_def initializeGPU_def newWebGLState_def)

text \<open>
  Claim C7 says that \<open>allocate\<close> resolves the texture shape once, acquires one texture
  of that shape, stores the record under the identifier and returns it. At
  \<open>allocate(1, [2, 3], 'float32')\<close> after \<open>initializeGPU\<close>: the call throws, the
  texture manager has handed out no texture and no record is stored.
\<close>

theorem allocate_at_sample:
  "WebGLStorage_allocate sampleExternals sampleState 1 [2, 3] Float32
   = (sampleState, Inl (Error ''Method not implemented.'')) \<and>
   TEXTURE_MANAGER sampleState = Some 0 \<and> db sampleState = None"
  by (simp add: allocate_throws sampleState_def initializeGPU_def newWebGLState_def)

section \<open>Identifiers along a sequence of calls\<close>

text \<open>
  \<open>toDouble\<close> keeps every number up to \<open>2 ^ 53\<close>, and \<open>2 ^ 53 + 1\<close> lies halfway between
  \<open>2 ^ 53\<close> and \<open>2 ^ 53 + 2\<close> and goes to the even significand: a counter that has
  reached \<open>2 ^ 53\<close> stays there.
\<close>

lemma excessBits53_small: "m < 2 ^ 53 \<Longrightarrow> excessBits53 m = 0"
  by (subst excessBits53.simps) simp

lemma excessBits53_54: "2 ^ 53 \<le> m \<Longrightarrow> m < 2 ^ 54 \<Longrightarrow> excessBits53 m = 1"
  by (subst excessBits53.simps) (simp add: excessBits53_small)

lemma toDouble_exact: 
  assumes "m \<le> 2 ^ 53" shows "toDouble m = m"
proof (cases "m < 2 ^ 53")
  case True
  then show ?thesis by (simp add: toDouble_def excessBits53_small roundToBits_0)
next
  case False
  with assms have m: "m = 2 ^ 53" by simp
  have e: "excessBits53 (2 ^ 53) = 1" by (rule excessBits53_54) simp_all
  have r: "roundToBits (2 ^ 53) 1 = 2 ^ 53" by (simp add: roundToBits_def)
  show ?thesis unfolding toDouble_def m e r ..
qed

lemma toDouble_tie: "toDouble (2 ^ 53 + 1) = 2 ^ 53"
proof -
  have e: "excessBits53 (2 ^ 53 + 1) = 1" by (rule excessBits53_54) simp_all
  show ?thesis unfolding toDouble_def e by (simp add: roundToBits_def)
qed

lemma toDouble_Suc:
  assumes "n \<le> 2 ^ 53" shows "toDouble (Suc n) = min (Suc n) (2 ^ 53)"
proof (cases "n < 2 ^ 53")
  case True
  then have "Suc n \<le> 2 ^ 53" by simp
  then have "toDouble (Suc n) = Suc n" by (rule toDouble_exact)
  with True show ?thesis by simp
next
  case False
  with assms have n: "n = 2 ^ 53" by simp
  have "toDouble (Suc (2 ^ 53)) = 2 ^ 53" using toDouble_tie by simp
  then show ?thesis unfolding n by simp
qed

lemma makeNDArrayData_nextId:
  "nextId (fst (makeNDArrayData S m shp dt vals)) = toDouble (nextId m + 1)"
  by (simp add: makeNDArrayData_def track_def Let_def split: option.splits prod.splits sum.splits)

lemma makeNDArrayData_returns:
  "makeNDArrayData S m shp dt vals = (m', Inr d) \<Longrightarrow>
     d = \<lparr>id' = nextId m, dtype = dt, shape = shp\<rparr>"
  by (auto simp: makeNDArrayData_def track_def Let_def split: option.splits prod.splits sum.splits)

lemma makeNDArrayData_None:
  "makeNDArrayData S m shp dt None =
     (m\<lparr>nextId := toDouble (nextId m + 1),
        console := console m @ [(''tracked'', \<lparr>id' = nextId m, dtype = dt, shape = shp\<rparr>)]\<rparr>,
      Inr \<lparr>id' = nextId m, dtype = dt, shape = shp\<rparr>)"
  by (simp add: makeNDArrayData_def Let_def track_def)

lemma step_nextId:
  "nextId (fst (step S m c)) = (if isMake c then toDouble (nextId m + 1) else nextId m)"
proof (cases c)
  case (Make shp dt vals)
  obtain m' r where mk: "makeNDArrayData S m shp dt vals = (m', r)"
    by (cases "makeNDArrayData S m shp dt vals")
  with makeNDArrayData_nextId [of S m shp dt vals] have "nextId m' = toDouble (nextId m + 1)"
    by simp
  with mk Make show ?thesis by (cases r) simp_all
next
  case (Dispose ident)
  obtain st' r where "dispose S (storage m) ident = (st', r)"
    by (cases "dispose S (storage m) ident")
  with Dispose show ?thesis by (cases r) simp_all
qed

lemma min_cap_add: "min (min (a + b) c + k) c = min (a + b + k) (c::nat)"
  by linarith

lemma step_nextId_bounded:
  assumes "cap = 2 ^ 53" and "nextId m \<le> cap"
  shows "nextId (fst (step S m c)) = min (nextId m + (if isMake c then 1 else 0)) cap"
proof (cases "isMake c")
  case True
  then have "nextId (fst (step S m c)) = toDouble (Suc (nextId m))" by (simp add: step_nextId)
  also have "\<dots> = min (Suc (nextId m)) cap" using assms toDouble_Suc [of "nextId m"] by simp
  finally show ?thesis using True by simp
next
  case False
  with assms(2) show ?thesis by (simp add: step_nextId)
qed

lemma step_Made:
  "step S m c = (m', Made d) \<Longrightarrow> id' d = nextId m \<and> isMake c"
  by (cases c) (auto split: prod.splits sum.splits dest: makeNDArrayData_returns)

lemma run_Cons:
  "run S m (c # cs) =
     (fst (run S (fst (step S m c)) cs), snd (step S m c) # snd (run S (fst (step S m c)) cs))"
  by (simp split: prod.splits)

lemma run_length: "length (snd (run S m cs)) = length cs"
  by (induction cs arbitrary: m) (simp_all add: run_Cons del: run.simps(2))

lemma run_nextId:
  "cap = 2 ^ 53 \<Longrightarrow> nextId m \<le> cap \<Longrightarrow>
     nextId (fst (run S m cs)) = min (nextId m + length (filter isMake cs)) cap"
proof (induction cs arbitrary: m)
  case Nil
  then show ?case by simp
next
  case (Cons c cs)
  let ?m' = "fst (step S m c)"
  let ?b = "if isMake c then 1 else 0 :: nat"
  have m': "nextId ?m' = min (nextId m + ?b) cap"
    using Cons.prems by (rule step_nextId_bounded)
  then have "nextId ?m' \<le> cap" by simp
  with Cons.prems(1)
  have "nextId (fst (run S ?m' cs)) = min (nextId ?m' + length (filter isMake cs)) cap"
    by (rule Cons.IH)
  also have "\<dots> = min (nextId m + ?b + length (filter isMake cs)) cap"
    unfolding m' by (rule min_cap_add)
  also have "nextId m + ?b + length (filter isMake cs) = nextId m + length (filter isMake (c # cs))"
    by simp
  finally show ?case by (simp add: run_Cons del: run.simps(2))
qed

lemma run_nth_id:
  "cap = 2 ^ 53 \<Longrightarrow> nextId m \<le> cap \<Longrightarrow> i < length cs \<Longrightarrow>
     snd (run S m cs) ! i = Made d \<Longrightarrow>
     id' d = min (nextId m + length (filter isMake (take i cs))) cap \<and> isMake (cs ! i)"
proof (induction cs arbitrary: m i)
  case Nil
  then show ?case by simp
next
  case (Cons c cs)
  let ?m' = "fst (step S m c)"
  let ?b = "if isMake c then 1 else 0 :: nat"
  have m': "nextId ?m' = min (nextId m + ?b) cap"
    using Cons.prems(1,2) by (rule step_nextId_bounded)
  then have le: "nextId ?m' \<le> cap" by simp
  show ?case
  proof (cases i)
    case 0
    with Cons.prems have "snd (step S m c) = Made d" by (simp add: run_Cons del: run.simps(2))
    then have "step S m c = (?m', Made d)" by (simp add: prod_eq_iff)
    then have "id' d = nextId m \<and> isMake c" by (rule step_Made)
    with 0 Cons.prems(2) show ?thesis by simp
  next
    case (Suc j)
    with Cons.prems have j: "j < length cs" "snd (run S ?m' cs) ! j = Made d"
      by (simp_all add: run_Cons del: run.simps(2))
    from Cons.IH [OF Cons.prems(1) le j]
    have "id' d = min (nextId ?m' + length (filter isMake (take j cs))) cap"
      and mk: "isMake (cs ! j)" by simp_all
    then have "id' d = min (nextId m + ?b + length (filter isMake (take j cs))) cap"
      unfolding m' by (simp only: min_cap_add)
    moreover have "nextId m + ?b + length (filter isMake (take j cs))
        = nextId m + length (filter isMake (take i (c # cs)))"
      using Suc by simp
    ultimately show ?thesis using mk Suc by simp
  qed
qed

lemma run_nth_Make_None:
  "cap = 2 ^ 53 \<Longrightarrow> nextId m \<le> cap \<Longrightarrow> i < length cs \<Longrightarrow> cs ! i = Make shp dt None \<Longrightarrow>
     snd (run S m cs) ! i =
       Made \<lparr>id' = min (nextId m + length (filter isMake (take i cs))) cap,
             dtype = dt, shape = shp\<rparr>"
proof (induction cs arbitrary: m i)
  case Nil
  then show ?case by simp
next
  case (Cons c cs)
  let ?m' = "fst (step S m c)"
  let ?b = "if isMake c then 1 else 0 :: nat"
  have m': "nextId ?m' = min (nextId m + ?b) cap"
    using Cons.prems(1,2) by (rule step_nextId_bounded)
  then have le: "nextId ?m' \<le> cap" by simp
  show ?case
  proof (cases i)
    case 0
    with Cons.prems have "c = Make shp dt None" by simp
    with 0 Cons.prems(2) show ?thesis
      by (simp add: run_Cons makeNDArrayData_None del: run.simps(2))
  next
    case (Suc j)
    with Cons.prems have j: "j < length cs" "cs ! j = Make shp dt None" by simp_all
    have eq: "nextId m + ?b + length (filter isMake (take j cs))
        = nextId m + length (filter isMake (take i (c # cs)))"
      using Suc by simp
    from Cons.IH [OF Cons.prems(1) le j]
    have "snd (run S ?m' cs) ! j =
       Made \<lparr>id' = min (nextId m + ?b + length (filter isMake (take j cs))) cap,
             dtype = dt, shape = shp\<rparr>"
      unfolding m' by (simp only: min_cap_add)
    then show ?thesis unfolding eq using Suc by (simp add: run_Cons del: run.simps(2))
  qed
qed

lemma madeData_set: "d \<in> set (madeData outs) \<longleftrightarrow> Made d \<in> set outs"
  by (induction outs rule: madeData.induct) auto

lemma filter_take_less:
  assumes "i < length cs" and "P (cs ! i)"
  shows "length (filter P (take i cs)) < length (filter P cs)"
proof -
  have "cs = take i cs @ cs ! i # drop (Suc i) cs" using assms(1) by (rule id_take_nth_drop)
  then have "filter P cs = filter P (take i cs) @ filter P (cs ! i # drop (Suc i) cs)"
    by (metis filter_append)
  with assms(2) show ?thesis by simp
qed

lemma run_made_id:
  assumes "cap = 2 ^ 53" and "nextId m \<le> cap" and "d \<in> set (madeData (snd (run S m cs)))"
  shows "nextId m \<le> id' d \<and> id' d < nextId m + length (filter isMake cs)"
proof -
  from assms(3) have "Made d \<in> set (snd (run S m cs))" by (simp add: madeData_set)
  then obtain i where i: "i < length cs" "snd (run S m cs) ! i = Made d"
    by (auto simp: in_set_conv_nth run_length)
  from run_nth_id [OF assms(1,2) i]
  have eq: "id' d = min (nextId m + length (filter isMake (take i cs))) cap"
    and mk: "isMake (cs ! i)" by simp_all
  from i(1) mk have "length (filter isMake (take i cs)) < length (filter isMake cs)"
    by (rule filter_take_less)
  with eq assms(2) show ?thesis by linarith
qed

lemma run_ids_sorted:
  "cap = 2 ^ 53 \<Longrightarrow> nextId m + length (filter isMake cs) \<le> Suc cap \<Longrightarrow> nextId m \<le> cap \<Longrightarrow>
     sorted_wrt (<) (map id' (madeData (snd (run S m cs))))"
proof (induction cs arbitrary: m)
  case Nil
  then show ?case by simp
next
  case (Cons c cs)
  let ?m' = "fst (step S m c)"
  let ?out = "snd (step S m c)"
  let ?outs = "snd (run S ?m' cs)"
  let ?b = "if isMake c then 1 else 0 :: nat"
  have m': "nextId ?m' = min (nextId m + ?b) cap"
    using Cons.prems(1,3) by (rule step_nextId_bounded)
  then have le: "nextId ?m' \<le> cap" by simp
  from m' Cons.prems(2) have "nextId ?m' + length (filter isMake cs) \<le> Suc cap"
    by (simp split: if_splits)
  with Cons.prems(1) have tl: "sorted_wrt (<) (map id' (madeData ?outs))"
    using le by (rule Cons.IH)
  have run: "snd (run S m (c # cs)) = ?out # ?outs"
    by (simp add: run_Cons del: run.simps(2))
  show ?case
  proof (cases ?out)
    case (Made d)
    then have "step S m c = (?m', Made d)" by (simp add: prod_eq_iff)
    then have d: "id' d = nextId m" and c: "isMake c" using step_Made by blast+
    have "id' d < id' d'" if "d' \<in> set (madeData ?outs)" for d'
    proof -
      from run_made_id [OF Cons.prems(1) le that]
      have lo: "nextId ?m' \<le> id' d'" and "id' d' < nextId ?m' + length (filter isMake cs)"
        by simp_all
      then have pos: "1 \<le> length (filter isMake cs)" by linarith
      have "length (filter isMake (c # cs)) = Suc (length (filter isMake cs))" using c by simp
      with Cons.prems(2) pos have "nextId m < cap" by linarith
      with m' c have "nextId ?m' = Suc (nextId m)" by simp
      with lo d show ?thesis by simp
    qed
    with tl show ?thesis unfolding run Made by simp
  next
    case Disposed
    with tl show ?thesis unfolding run by simp
  next
    case (Thrown e)
    with tl show ?thesis unfolding run by simp
  qed
qed

lemma run_failing_uploads:
  "cap = 2 ^ 53 \<Longrightarrow> nextId m \<le> cap \<Longrightarrow>
     fst (run (WebGLStorage ext) m (replicate n (Make shp dt (Some v))))
       = m\<lparr>nextId := min (nextId m + n) cap\<rparr>"
proof (induction n arbitrary: m)
  case 0
  then show ?case by simp
next
  case (Suc n)
  let ?c = "Make shp dt (Some v)"
  let ?m' = "fst (step (WebGLStorage ext) m ?c)"
  have st: "?m' = m\<lparr>nextId := toDouble (Suc (nextId m))\<rparr>"
    by (simp add: makeNDArrayData_def Let_def WebGLStorage_def upload_throws)
  have td: "toDouble (Suc (nextId m)) = min (nextId m + 1) cap"
    using Suc.prems toDouble_Suc [of "nextId m"] by simp
  have m': "?m' = m\<lparr>nextId := min (nextId m + 1) cap\<rparr>" unfolding st td ..
  then have le: "nextId ?m' \<le> cap" by simp
  have "fst (run (WebGLStorage ext) m (replicate (Suc n) ?c))
      = fst (run (WebGLStorage ext) ?m' (replicate n ?c))"
    by (simp add: run_Cons del: run.simps(2) step.simps)
  also have "\<dots> = ?m'\<lparr>nextId := min (nextId ?m' + n) cap\<rparr>"
    using Suc.prems(1) le by (rule Suc.IH)
  also have "\<dots> = m\<lparr>nextId := min (min (nextId m + 1) cap + n) cap\<rparr>"
    unfolding m' by simp
  also have "min (min (nextId m + 1) cap + n) cap = min (nextId m + Suc n) cap"
    by linarith
  finally show ?case .
qed


lemma run_sampleCalls:
  "snd (run (WebGLStorage sampleExternals) (newNDArrayManager sampleState) sampleCalls) =
     [Made \<lparr>id' = 1, dtype = Bool, shape = [1]\<rparr>,
      Thrown (Error ''Method not implemented.''),
      Thrown (Error ''Method not implemented.''),
      Made \<lparr>id' = 3, dtype = Bool, shape = [1]\<rparr>]"
  by (simp add: sampleCalls_def makeNDArrayData_def Let_def newNDArrayManager_def track_def
      WebGLStorage_def upload_throws dispose_throws toDouble_exact)

section \<open>The claims about \<open>makeNDArrayData\<close>\<close>

text \<open>
  Claim C1, as amended. Take any storage object, a new manager on it and any sequence of
  calls, each a \<open>makeNDArrayData\<close> or a \<open>dispose\<close> on the storage object. A
  \<open>makeNDArrayData\<close> that returns gives one more than the number of \<open>makeNDArrayData\<close>
  calls before it, or \<open>2 ^ 53\<close> when that is less. So while the sequence has at most
  \<open>2 ^ 53\<close> calls of \<open>makeNDArrayData\<close>, the identifiers returned start at 1 and are
  strictly increasing, none repeats, and neither a failed call nor a \<open>dispose\<close> in
  between hands an identifier out again.
\<close>

theorem makeNDArrayData_ids:
  "(\<forall>i d. i < length calls \<and> snd (run S (newNDArrayManager st) calls) ! i = Made d
      \<longrightarrow> id' d = min (Suc (length (filter isMake (take i calls)))) (2 ^ 53)) \<and>
   (length (filter isMake calls) \<le> 2 ^ 53 \<longrightarrow>
      sorted_wrt (<) (map id' (madeData (snd (run S (newNDArrayManager st) calls)))) \<and>
      distinct (map id' (madeData (snd (run S (newNDArrayManager st) calls)))) \<and>
      (\<forall>i d. i < length calls \<and> snd (run S (newNDArrayManager st) calls) ! i = Made d
         \<longrightarrow> id' d = Suc (length (filter isMake (take i calls)))))"
proof -
  let ?m = "newNDArrayManager st"
  let ?outs = "snd (run S ?m calls)"
  let ?ids = "map id' (madeData ?outs)"
  have n: "nextId ?m = 1" "nextId ?m \<le> 2 ^ 53" by (simp_all add: newNDArrayManager_def)
  have nth: "id' d = min (Suc (length (filter isMake (take i calls)))) (2 ^ 53) \<and> isMake (calls ! i)"
    if "i < length calls" "?outs ! i = Made d" for i d
    using run_nth_id [OF refl n(2) that] n(1) by simp
  have bounded: "sorted_wrt (<) ?ids \<and> distinct ?ids \<and>
      (\<forall>i d. i < length calls \<and> ?outs ! i = Made d
         \<longrightarrow> id' d = Suc (length (filter isMake (take i calls))))"
    if le: "length (filter isMake calls) \<le> 2 ^ 53"
  proof -
    from le n(1) have "nextId ?m + length (filter isMake calls) \<le> Suc (2 ^ 53)" by simp
    then have s: "sorted_wrt (<) ?ids" using n(2) by (rule run_ids_sorted [OF refl])
    then have dist: "distinct ?ids" by (simp add: strict_sorted_iff)
    have "id' d = Suc (length (filter isMake (take i calls)))"
      if i: "i < length calls" "?outs ! i = Made d" for i d
    proof -
      from nth [OF i] have eq: "id' d = min (Suc (length (filter isMake (take i calls)))) (2 ^ 53)"
        and mk: "isMake (calls ! i)" by simp_all
      from i(1) mk have "length (filter isMake (take i calls)) < length (filter isMake calls)"
        by (rule filter_take_less)
      with le eq show ?thesis by linarith
    qed
    with s dist show ?thesis by blast
  qed
  from nth bounded show ?thesis by blast
qed

text \<open>
  The theorem on a manager built on a \<open>WebGLStorage\<close>, along \<open>sampleCalls\<close>: the first
  array gets 1, the \<open>dispose\<close> and the upload throw, and the last array gets 3.
\<close>

theorem makeNDArrayData_ids_witness:
  "length (filter isMake sampleCalls) \<le> 2 ^ 53 \<and>
   (3 :: nat) < length sampleCalls \<and>
   snd (run (WebGLStorage sampleExternals) (newNDArrayManager sampleState) sampleCalls) ! 3
     = Made \<lparr>id' = 3, dtype = Bool, shape = [1]\<rparr> \<and>
   id' \<lparr>id' = 3, dtype = Bool, shape = [1]\<rparr> = Suc (length (filter isMake (take 3 sampleCalls))) \<and>
   map id' (madeData (snd (run (WebGLStorage sampleExternals) (newNDArrayManager sampleState)
     sampleCalls))) = [1, 3] \<and>
   sorted_wrt (<) [1, 3 :: nat] \<and> distinct [1, 3 :: nat]"
proof -
  have few: "length (filter isMake sampleCalls) \<le> 2 ^ 53" by (simp add: sampleCalls_def)
  note t = makeNDArrayData_ids [of sampleCalls "WebGLStorage sampleExternals" sampleState,
      THEN conjunct2, THEN mp, OF few]
  have len: "(3 :: nat) < length sampleCalls" by (simp add: sampleCalls_def)
  have nth: "snd (run (WebGLStorage sampleExternals) (newNDArrayManager sampleState) sampleCalls) ! 3
     = Made \<lparr>id' = 3, dtype = Bool, shape = [1]\<rparr>"
    by (simp add: run_sampleCalls)
  from t len nth
  have "id' \<lparr>id' = 3, dtype = Bool, shape = [1]\<rparr> = Suc (length (filter isMake (take 3 sampleCalls)))"
    by blast
  moreover have ids: "map id' (madeData (snd (run (WebGLStorage sampleExternals)
      (newNDArrayManager sampleState) sampleCalls))) = [1, 3]"
    by (simp add: run_sampleCalls)
  moreover from t have "sorted_wrt (<) [1, 3 :: nat]" "distinct [1, 3 :: nat]"
    unfolding ids by blast+
  ultimately show ?thesis using few len nth by blast
qed

text \<open>
  The claim as it was stated holds for every sequence of calls. Of \<open>2 ^ 53 + 1\<close> calls of
  \<open>makeNDArrayData\<close> on a new manager, the last two both return the identifier
  \<open>2 ^ 53 = 9007199254740992\<close>.
\<close>

theorem makeNDArrayData_ids_counterexample:
  "snd (run (WebGLStorage sampleExternals) (newNDArrayManager sampleState)
          (replicate (2 ^ 53 + 1) (Make [1] Bool None))) ! (2 ^ 53 - 1)
     = Made \<lparr>id' = 2 ^ 53, dtype = Bool, shape = [1]\<rparr> \<and>
   snd (run (WebGLStorage sampleExternals) (newNDArrayManager sampleState)
          (replicate (2 ^ 53 + 1) (Make [1] Bool None))) ! (2 ^ 53)
     = Made \<lparr>id' = 2 ^ 53, dtype = Bool, shape = [1]\<rparr>"
proof -
  let ?cs = "replicate (2 ^ 53 + 1) (Make [1] Bool None)"
  let ?m = "newNDArrayManager sampleState"
  have n: "nextId ?m \<le> 2 ^ 53" by (simp add: newNDArrayManager_def)
  have a: "snd (run (WebGLStorage sampleExternals) ?m ?cs) ! (2 ^ 53 - 1)
     = Made \<lparr>id' = min (nextId ?m + length (filter isMake (take (2 ^ 53 - 1) ?cs))) (2 ^ 53),
             dtype = Bool, shape = [1]\<rparr>"
    by (rule run_nth_Make_None [OF refl n]) simp_all
  have b: "snd (run (WebGLStorage sampleExternals) ?m ?cs) ! (2 ^ 53)
     = Made \<lparr>id' = min (nextId ?m + length (filter isMake (take (2 ^ 53) ?cs))) (2 ^ 53),
             dtype = Bool, shape = [1]\<rparr>"
    by (rule run_nth_Make_None [OF refl n]) simp_all
  have "min (nextId ?m + length (filter isMake (take (2 ^ 53 - 1) ?cs))) (2 ^ 53) = 2 ^ 53"
    by (simp add: newNDArrayManager_def)
  moreover have "min (nextId ?m + length (filter isMake (take (2 ^ 53) ?cs))) (2 ^ 53) = 2 ^ 53"
    by (simp add: newNDArrayManager_def)
  ultimately show ?thesis using a b by simp
qed

text \<open>
  Claim C4, as amended. \<open>makeNDArrayData\<close> checks neither the shape nor the number of
  values. Without values it returns the descriptor for every shape. With values it throws
  exactly when the \<open>upload\<close> of the storage object throws, and then what \<open>upload\<close> threw;
  otherwise it returns the descriptor.
\<close>

theorem makeNDArrayData_no_validation:
  "snd (makeNDArrayData S m shp dt None) = Inr \<lparr>id' = nextId m, dtype = dt, shape = shp\<rparr> \<and>
   snd (makeNDArrayData S m shp dt (Some v)) =
     (case snd (upload S (storage m) (nextId m) shp dt v) of
        Inl e \<Rightarrow> Inl e
      | Inr sd \<Rightarrow> Inr \<lparr>id' = nextId m, dtype = dt, shape = shp\<rparr>)"
  by (simp add: makeNDArrayData_def Let_def split: prod.splits sum.splits)

text \<open>
  The claim as it was stated has \<open>makeNDArrayData([-1], 'float32')\<close> fail. It returns the
  descriptor with identifier 1 and shape \<open>[-1]\<close>. With shape \<open>[2, 2]\<close> and three values
  the call on a \<open>WebGLStorage\<close> throws \<open>Error('Method not implemented.')\<close>, as it does
  with four values: the error says nothing about the shape. On \<open>recordingStorage\<close>, whose
  \<open>upload\<close> returns, the call with three values returns the descriptor.
\<close>

theorem makeNDArrayData_validation_counterexample:
  "makeNDArrayData (WebGLStorage sampleExternals) (newNDArrayManager sampleState) [- 1] Float32 None
     = (\<lparr>storage = sampleState, nextId = 2,
          console = [(''tracked'', \<lparr>id' = 1, dtype = Float32, shape = [- 1]\<rparr>)]\<rparr>,
        Inr \<lparr>id' = 1, dtype = Float32, shape = [- 1]\<rparr>) \<and>
   snd (makeNDArrayData (WebGLStorage sampleExternals) (newNDArrayManager sampleState) [2, 2] Float32
          (Some (Float32Array [Finite 1, Finite 2, Finite 3])))
     = Inl (Error ''Method not implemented.'') \<and>
   snd (makeNDArrayData (WebGLStorage sampleExternals) (newNDArrayManager sampleState) [2, 2] Float32
          (Some (Float32Array [Finite 1, Finite 2, Finite 3, Finite 4])))
     = Inl (Error ''Method not implemented.'') \<and>
   snd (makeNDArrayData recordingStorage (newNDArrayManager []) [2, 2] Float32
          (Some (Float32Array [Finite 1, Finite 2, Finite 3])))
     = Inr \<lparr>id' = 1, dtype = Float32, shape = [2, 2]\<rparr>"
  by (simp add: makeNDArrayData_def Let_def newNDArrayManager_def track_def WebGLStorage_def
      upload_throws recordingStorage_def toDouble_exact)

text \<open>
  Claim C5, as amended. When \<open>upload\<close> throws during \<open>makeNDArrayData\<close> and \<open>nextId\<close> is
  below \<open>2 ^ 53\<close>, the call throws the same value; the manager is left with \<open>nextId\<close> one
  higher, nothing more on the console, and the storage object as \<open>upload\<close> left it. The
  next \<open>makeNDArrayData\<close> that returns gives the identifier after the failed one, and no
  later call ever returns an identifier as low as the failed one. On a \<open>WebGLStorage\<close>
  the failed \<open>upload\<close> leaves the storage object as it was, so the identifier is all that
  changes.
\<close>

theorem failed_upload_consumes_id:
  assumes "upload S (storage m) (nextId m) shp dt v = (st', Inl e)" and "nextId m < 2 ^ 53"
  shows "makeNDArrayData S m shp dt (Some v) = (m\<lparr>storage := st', nextId := Suc (nextId m)\<rparr>, Inl e) \<and>
    (\<forall>shp' dt' vals' m' d.
       makeNDArrayData S (m\<lparr>storage := st', nextId := Suc (nextId m)\<rparr>) shp' dt' vals' = (m', Inr d)
         \<longrightarrow> id' d = Suc (nextId m)) \<and>
    (\<forall>calls d.
       d \<in> set (madeData (snd (run S (m\<lparr>storage := st', nextId := Suc (nextId m)\<rparr>) calls)))
         \<longrightarrow> nextId m < id' d) \<and>
    (nextId mw < 2 ^ 53 \<longrightarrow>
       makeNDArrayData (WebGLStorage ext) mw shp dt (Some v)
         = (mw\<lparr>nextId := Suc (nextId mw)\<rparr>, Inl (Error ''Method not implemented.'')))"
proof -
  let ?m' = "m\<lparr>storage := st', nextId := Suc (nextId m)\<rparr>"
  from assms(2) have "Suc (nextId m) \<le> 2 ^ 53" by simp
  then have td: "toDouble (Suc (nextId m)) = Suc (nextId m)" by (rule toDouble_exact)
  have a: "makeNDArrayData S m shp dt (Some v) = (?m', Inl e)"
    using assms(1) td by (simp add: makeNDArrayData_def Let_def)
  have b: "id' d = Suc (nextId m)"
    if "makeNDArrayData S ?m' shp' dt' vals' = (m', Inr d)" for shp' dt' vals' m' d
    using makeNDArrayData_returns [OF that] by simp
  have le: "nextId ?m' \<le> 2 ^ 53" using assms(2) by simp
  have c: "nextId m < id' d" if "d \<in> set (madeData (snd (run S ?m' calls)))" for calls d
    using run_made_id [OF refl le that] by simp
  have d: "makeNDArrayData (WebGLStorage ext) mw shp dt (Some v)
      = (mw\<lparr>nextId := Suc (nextId mw)\<rparr>, Inl (Error ''Method not implemented.''))"
    if "nextId mw < 2 ^ 53"
  proof -
    from that have "Suc (nextId mw) \<le> 2 ^ 53" by simp
    then have "toDouble (Suc (nextId mw)) = Suc (nextId mw)" by (rule toDouble_exact)
    then show ?thesis by (simp add: makeNDArrayData_def Let_def WebGLStorage_def upload_throws)
  qed
  from a b c d show ?thesis by blast
qed

text \<open>
  The theorem on a manager built on a \<open>WebGLStorage\<close>: the upload of \<open>sampleValues\<close>
  throws and uses up identifier 1, and the next array gets 2.
\<close>

theorem failed_upload_consumes_id_witness:
  "upload (WebGLStorage sampleExternals) (storage (newNDArrayManager sampleState))
     (nextId (newNDArrayManager sampleState)) [2, 3] Float32 sampleValues
     = (sampleState, Inl (Error ''Method not implemented.'')) \<and>
   nextId (newNDArrayManager sampleState) < 2 ^ 53 \<and>
   makeNDArrayData (WebGLStorage sampleExternals) (newNDArrayManager sampleState) [2, 3] Float32
     (Some sampleValues)
     = (\<lparr>storage = sampleState, nextId = 2, console = []\<rparr>, Inl (Error ''Method not implemented.'')) \<and>
   makeNDArrayData (WebGLStorage sampleExternals) \<lparr>storage = sampleState, nextId = 2, console = []\<rparr>
     [1] Bool None
     = (\<lparr>storage = sampleState, nextId = 3,
          console = [(''tracked'', \<lparr>id' = 2, dtype = Bool, shape = [1]\<rparr>)]\<rparr>,
        Inr \<lparr>id' = 2, dtype = Bool, shape = [1]\<rparr>) \<and>
   id' \<lparr>id' = 2, dtype = Bool, shape = [1]\<rparr> = Suc (nextId (newNDArrayManager sampleState))"
proof -
  have up: "upload (WebGLStorage sampleExternals) (storage (newNDArrayManager sampleState))
     (nextId (newNDArrayManager sampleState)) [2, 3] Float32 sampleValues
     = (sampleState, Inl (Error ''Method not implemented.''))"
    by (simp add: WebGLStorage_def upload_throws newNDArrayManager_def)
  have low: "nextId (newNDArrayManager sampleState) < 2 ^ 53"
    by (simp add: newNDArrayManager_def)
  note t = failed_upload_consumes_id [OF up low]
  have m': "(newNDArrayManager sampleState)\<lparr>storage := sampleState,
       nextId := Suc (nextId (newNDArrayManager sampleState))\<rparr>
     = \<lparr>storage = sampleState, nextId = 2, console = []\<rparr>"
    by (simp add: newNDArrayManager_def)
  have nxt: "makeNDArrayData (WebGLStorage sampleExternals)
       \<lparr>storage = sampleState, nextId = 2, console = []\<rparr> [1] Bool None
     = (\<lparr>storage = sampleState, nextId = 3,
          console = [(''tracked'', \<lparr>id' = 2, dtype = Bool, shape = [1]\<rparr>)]\<rparr>,
        Inr \<lparr>id' = 2, dtype = Bool, shape = [1]\<rparr>)"
    by (simp add: makeNDArrayData_def Let_def track_def toDouble_exact)
  from t [unfolded m'] nxt
  have "id' \<lparr>id' = 2, dtype = Bool, shape = [1]\<rparr> = Suc (nextId (newNDArrayManager sampleState))"
    by blast
  with up low t [unfolded m'] nxt show ?thesis by blast
qed

text \<open>
  The claim as it was stated has every failed call use up its identifier. After
  \<open>2 ^ 53 - 1\<close> failed uploads on a new manager \<open>nextId\<close> is \<open>2 ^ 53\<close>. One more failed
  upload, which takes the identifier \<open>2 ^ 53\<close>, leaves the manager exactly as it was, and
  the next call returns \<open>2 ^ 53\<close>, the identifier of the failed call.
\<close>

theorem failed_upload_counterexample:
  "fst (run (WebGLStorage sampleExternals) (newNDArrayManager sampleState)
          (replicate (2 ^ 53 - 1) (Make [2, 3] Float32 (Some sampleValues))))
     = \<lparr>storage = sampleState, nextId = 2 ^ 53, console = []\<rparr> \<and>
   makeNDArrayData (WebGLStorage sampleExternals)
       \<lparr>storage = sampleState, nextId = 2 ^ 53, console = []\<rparr> [2, 3] Float32 (Some sampleValues)
     = (\<lparr>storage = sampleState, nextId = 2 ^ 53, console = []\<rparr>,
        Inl (Error ''Method not implemented.'')) \<and>
   snd (makeNDArrayData (WebGLStorage sampleExternals)
       \<lparr>storage = sampleState, nextId = 2 ^ 53, console = []\<rparr> [1] Bool None)
     = Inr \<lparr>id' = 2 ^ 53, dtype = Bool, shape = [1]\<rparr>"
proof -
  let ?m = "newNDArrayManager sampleState"
  have n: "nextId ?m \<le> 2 ^ 53" by (simp add: newNDArrayManager_def)
  have "fst (run (WebGLStorage sampleExternals) ?m
          (replicate (2 ^ 53 - 1) (Make [2, 3] Float32 (Some sampleValues))))
     = ?m\<lparr>nextId := min (nextId ?m + (2 ^ 53 - 1)) (2 ^ 53)\<rparr>"
    using refl n by (rule run_failing_uploads)
  also have "\<dots> = \<lparr>storage = sampleState, nextId = 2 ^ 53, console = []\<rparr>"
    by (simp add: newNDArrayManager_def)
  finally have a: "fst (run (WebGLStorage sampleExternals) ?m
          (replicate (2 ^ 53 - 1) (Make [2, 3] Float32 (Some sampleValues))))
     = \<lparr>storage = sampleState, nextId = 2 ^ 53, console = []\<rparr>" .
  have tie: "toDouble (Suc (2 ^ 53)) = 2 ^ 53" using toDouble_tie by simp
  have b: "makeNDArrayData (WebGLStorage sampleExternals)
       \<lparr>storage = sampleState, nextId = 2 ^ 53, console = []\<rparr> [2, 3] Float32 (Some sampleValues)
     = (\<lparr>storage = sampleState, nextId = 2 ^ 53, console = []\<rparr>,
        Inl (Error ''Method not implemented.''))"
    using tie by (simp add: makeNDArrayData_def Let_def WebGLStorage_def upload_throws)
  have c: "snd (makeNDArrayData (WebGLStorage sampleExternals)
       \<lparr>storage = sampleState, nextId = 2 ^ 53, console = []\<rparr> [1] Bool None)
     = Inr \<lparr>id' = 2 ^ 53, dtype = Bool, shape = [1]\<rparr>"
    by (simp add: makeNDArrayData_None)
  from a b c show ?thesis by blast
qed

text \<open>
  Claim C8, as amended. Without values \<open>makeNDArrayData\<close> returns the descriptor with the
  given shape and dtype and the identifier \<open>nextId\<close>, whatever the storage object is, also
  one whose operations all throw or all change its state; the state of the storage object
  is the one before the call, and the descriptor is logged. None of the operations of the
  storage object has run. The counter moves to the next number, or stays at \<open>2 ^ 53\<close>. On
  a new manager, after calls of which fewer than \<open>2 ^ 53\<close> are \<open>makeNDArrayData\<close>, the
  identifier is one more than the number of those calls and is fresh: no earlier call
  returned it.
\<close>

theorem makeNDArrayData_without_values:
  "snd (makeNDArrayData S m shp dt None) = Inr \<lparr>id' = nextId m, dtype = dt, shape = shp\<rparr> \<and>
   storage (fst (makeNDArrayData S m shp dt None)) = storage m \<and>
   console (fst (makeNDArrayData S m shp dt None))
     = console m @ [(''tracked'', \<lparr>id' = nextId m, dtype = dt, shape = shp\<rparr>)] \<and>
   (nextId m \<le> 2 ^ 53 \<longrightarrow>
      nextId (fst (makeNDArrayData S m shp dt None)) = min (Suc (nextId m)) (2 ^ 53)) \<and>
   (length (filter isMake calls) < 2 ^ 53 \<longrightarrow>
      snd (makeNDArrayData S (fst (run S (newNDArrayManager st) calls)) shp dt None)
        = Inr \<lparr>id' = Suc (length (filter isMake calls)), dtype = dt, shape = shp\<rparr> \<and>
      Suc (length (filter isMake calls))
        \<notin> set (map id' (madeData (snd (run S (newNDArrayManager st) calls)))))"
proof -
  have frame: "snd (makeNDArrayData S m shp dt None) = Inr \<lparr>id' = nextId m, dtype = dt, shape = shp\<rparr>"
    "storage (fst (makeNDArrayData S m shp dt None)) = storage m"
    "console (fst (makeNDArrayData S m shp dt None))
       = console m @ [(''tracked'', \<lparr>id' = nextId m, dtype = dt, shape = shp\<rparr>)]"
    by (simp_all add: makeNDArrayData_None)
  have cnt: "nextId (fst (makeNDArrayData S m shp dt None)) = min (Suc (nextId m)) (2 ^ 53)"
    if "nextId m \<le> 2 ^ 53"
    using toDouble_Suc [OF that] by (simp add: makeNDArrayData_None)
  have fresh: "snd (makeNDArrayData S (fst (run S (newNDArrayManager st) calls)) shp dt None)
        = Inr \<lparr>id' = Suc (length (filter isMake calls)), dtype = dt, shape = shp\<rparr> \<and>
      Suc (length (filter isMake calls))
        \<notin> set (map id' (madeData (snd (run S (newNDArrayManager st) calls))))"
    if few: "length (filter isMake calls) < 2 ^ 53"
  proof -
    let ?m = "newNDArrayManager st"
    have n: "nextId ?m = 1" "nextId ?m \<le> 2 ^ 53" by (simp_all add: newNDArrayManager_def)
    have "nextId (fst (run S ?m calls)) = min (nextId ?m + length (filter isMake calls)) (2 ^ 53)"
      using refl n(2) by (rule run_nextId)
    with few n(1) have "nextId (fst (run S ?m calls)) = Suc (length (filter isMake calls))"
      by simp
    then have r: "snd (makeNDArrayData S (fst (run S ?m calls)) shp dt None)
        = Inr \<lparr>id' = Suc (length (filter isMake calls)), dtype = dt, shape = shp\<rparr>"
      by (simp add: makeNDArrayData_None)
    have "Suc (length (filter isMake calls)) \<notin> set (map id' (madeData (snd (run S ?m calls))))"
    proof
      assume "Suc (length (filter isMake calls)) \<in> set (map id' (madeData (snd (run S ?m calls))))"
      then obtain d where d: "d \<in> set (madeData (snd (run S ?m calls)))"
        and eq: "id' d = Suc (length (filter isMake calls))" by auto
      from run_made_id [OF refl n(2) d] n(1) have "id' d < Suc (length (filter isMake calls))"
        by simp
      with eq show False by simp
    qed
    with r show ?thesis by blast
  qed
  from frame cnt fresh show ?thesis by blast
qed

text \<open>
  The theorem on a new manager built on a \<open>WebGLStorage\<close>, and after \<open>sampleCalls\<close>, where
  the call without values returns the identifier 4, which no earlier call returned.
\<close>

theorem makeNDArrayData_without_values_witness:
  "nextId (newNDArrayManager sampleState) \<le> 2 ^ 53 \<and>
   nextId (fst (makeNDArrayData (WebGLStorage sampleExternals) (newNDArrayManager sampleState)
     [1] Bool None)) = 2 \<and>
   length (filter isMake sampleCalls) < 2 ^ 53 \<and>
   snd (makeNDArrayData (WebGLStorage sampleExternals)
     (fst (run (WebGLStorage sampleExternals) (newNDArrayManager sampleState) sampleCalls))
     [1] Bool None) = Inr \<lparr>id' = 4, dtype = Bool, shape = [1]\<rparr> \<and>
   4 \<notin> set (map id' (madeData (snd (run (WebGLStorage sampleExternals)
     (newNDArrayManager sampleState) sampleCalls))))"
proof -
  have n: "nextId (newNDArrayManager sampleState) \<le> 2 ^ 53" by (simp add: newNDArrayManager_def)
  have few: "length (filter isMake sampleCalls) < 2 ^ 53" by (simp add: sampleCalls_def)
  have three: "Suc (length (filter isMake sampleCalls)) = 4" by (simp add: sampleCalls_def)
  note t = makeNDArrayData_without_values [of "WebGLStorage sampleExternals"
      "newNDArrayManager sampleState" "[1]" Bool sampleCalls sampleState]
  from t n have "nextId (fst (makeNDArrayData (WebGLStorage sampleExternals)
      (newNDArrayManager sampleState) [1] Bool None))
      = min (Suc (nextId (newNDArrayManager sampleState))) (2 ^ 53)"
    by blast
  then have a: "nextId (fst (makeNDArrayData (WebGLStorage sampleExternals)
      (newNDArrayManager sampleState) [1] Bool None)) = 2"
    by (simp add: newNDArrayManager_def)
  from t few have "snd (makeNDArrayData (WebGLStorage sampleExternals)
     (fst (run (WebGLStorage sampleExternals) (newNDArrayManager sampleState) sampleCalls))
     [1] Bool None) = Inr \<lparr>id' = Suc (length (filter isMake sampleCalls)), dtype = Bool, shape = [1]\<rparr>"
    and "Suc (length (filter isMake sampleCalls)) \<notin> set (map id' (madeData (snd (run
     (WebGLStorage sampleExternals) (newNDArrayManager sampleState) sampleCalls))))"
    by blast+
  then have b: "snd (makeNDArrayData (WebGLStorage sampleExternals)
     (fst (run (WebGLStorage sampleExternals) (newNDArrayManager sampleState) sampleCalls))
     [1] Bool None) = Inr \<lparr>id' = 4, dtype = Bool, shape = [1]\<rparr>"
    and c: "4 \<notin> set (map id' (madeData (snd (run (WebGLStorage sampleExternals)
     (newNDArrayManager sampleState) sampleCalls))))"
    unfolding three by simp_all
  from n a few b c show ?thesis by blast
qed

text \<open>
  The claim as it was stated has the identifier fresh in every call. After \<open>2 ^ 53\<close> calls
  without values on a new manager, the last of which returned \<open>2 ^ 53\<close>, one more call
  without values returns \<open>2 ^ 53\<close> again.
\<close>

theorem makeNDArrayData_fresh_counterexample:
  "snd (run (WebGLStorage sampleExternals) (newNDArrayManager sampleState)
          (replicate (2 ^ 53) (Make [1] Bool None))) ! (2 ^ 53 - 1)
     = Made \<lparr>id' = 2 ^ 53, dtype = Bool, shape = [1]\<rparr> \<and>
   snd (makeNDArrayData (WebGLStorage sampleExternals)
          (fst (run (WebGLStorage sampleExternals) (newNDArrayManager sampleState)
                  (replicate (2 ^ 53) (Make [1] Bool None)))) [1] Bool None)
     = Inr \<lparr>id' = 2 ^ 53, dtype = Bool, shape = [1]\<rparr>"
proof -
  let ?cs = "replicate (2 ^ 53) (Make [1] Bool None)"
  let ?m = "newNDArrayManager sampleState"
  let ?W = "WebGLStorage sampleExternals"
  have n: "nextId ?m \<le> 2 ^ 53" by (simp add: newNDArrayManager_def)
  have "snd (run ?W ?m ?cs) ! (2 ^ 53 - 1)
     = Made \<lparr>id' = min (nextId ?m + length (filter isMake (take (2 ^ 53 - 1) ?cs))) (2 ^ 53),
             dtype = Bool, shape = [1]\<rparr>"
    by (rule run_nth_Make_None [OF refl n]) simp_all
  moreover have "min (nextId ?m + length (filter isMake (take (2 ^ 53 - 1) ?cs))) (2 ^ 53) = 2 ^ 53"
    by (simp add: newNDArrayManager_def)
  ultimately have a: "snd (run ?W ?m ?cs) ! (2 ^ 53 - 1)
     = Made \<lparr>id' = 2 ^ 53, dtype = Bool, shape = [1]\<rparr>" by simp
  have "nextId (fst (run ?W ?m ?cs)) = min (nextId ?m + length (filter isMake ?cs)) (2 ^ 53)"
    using refl n by (rule run_nextId)
  then have "nextId (fst (run ?W ?m ?cs)) = 2 ^ 53" by (simp add: newNDArrayManager_def)
  then have b: "snd (makeNDArrayData ?W (fst (run ?W ?m ?cs)) [1] Bool None)
     = Inr \<lparr>id' = 2 ^ 53, dtype = Bool, shape = [1]\<rparr>"
    by (simp add: makeNDArrayData_None)
  from a b show ?thesis by blast
qed



end
